theory Spec2Isabelle
  imports Complex_Main "HOL-Library.Multiset"
begin

section \<open>Numbers and raw model output\<close>

text \<open>
  The decision pipeline of \<^verbatim>\<open>src/popup.js\<close> computes on JavaScript numbers. A number is
  modelled as \<open>NaN\<close>, one of the two infinities, or a finite value \<open>Fin x\<close> with \<open>x\<close> an
  exact real. The special values follow IEEE 754 as JavaScript has it: comparisons with
  \<open>NaN\<close> are false, \<open>NaN\<close> propagates through arithmetic and through \<open>Math.max\<close> and
  \<open>Math.min\<close>, \<open>Infinity - Infinity\<close>, \<open>Infinity / Infinity\<close> and \<open>0 / 0\<close> are \<open>NaN\<close>. On finite
  values the arithmetic is exact: rounding, overflow to an infinity, underflow and the
  sign of zero are not modelled here (rounding is, for the average of line 922, in the
  section on binary64 below).
  A raw model output (\<open>output.data\<close>, a typed array) is a list of such numbers; the
  JavaScript \<open>null\<close> returned for an unusable output is \<^const>\<open>None\<close>.
\<close>

datatype jsnum = NaN | PosInf | NegInf | Fin real

definition isNaN :: "jsnum \<Rightarrow> bool" where
  "isNaN v = (v = NaN)"

text \<open>\<open>a <= b\<close> and \<open>a >= b\<close>.\<close>

fun js_le :: "jsnum \<Rightarrow> jsnum \<Rightarrow> bool" where
  "js_le NaN b = False"
| "js_le a NaN = False"
| "js_le NegInf b = True"
| "js_le a PosInf = True"
| "js_le PosInf b = False"
| "js_le (Fin a) NegInf = False"
| "js_le (Fin a) (Fin b) = (a \<le> b)"

definition js_ge :: "jsnum \<Rightarrow> jsnum \<Rightarrow> bool" where
  "js_ge a b = js_le b a"

text \<open>Unary minus, \<open>Math.exp\<close>, \<open>+\<close>, binary \<open>-\<close> and \<open>/\<close>.\<close>

fun js_neg :: "jsnum \<Rightarrow> jsnum" where
  "js_neg NaN = NaN"
| "js_neg PosInf = NegInf"
| "js_neg NegInf = PosInf"
| "js_neg (Fin a) = Fin (- a)"

fun js_exp :: "jsnum \<Rightarrow> jsnum" where
  "js_exp NaN = NaN"
| "js_exp PosInf = PosInf"
| "js_exp NegInf = Fin 0"
| "js_exp (Fin a) = Fin (exp a)"

fun js_add :: "jsnum \<Rightarrow> jsnum \<Rightarrow> jsnum" where
  "js_add NaN b = NaN"
| "js_add a NaN = NaN"
| "js_add PosInf NegInf = NaN"
| "js_add NegInf PosInf = NaN"
| "js_add PosInf b = PosInf"
| "js_add a PosInf = PosInf"
| "js_add NegInf b = NegInf"
| "js_add a NegInf = NegInf"
| "js_add (Fin a) (Fin b) = Fin (a + b)"

definition js_sub :: "jsnum \<Rightarrow> jsnum \<Rightarrow> jsnum" where
  "js_sub a b = js_add a (js_neg b)"

fun js_div :: "jsnum \<Rightarrow> jsnum \<Rightarrow> jsnum" where
  "js_div NaN b = NaN"
| "js_div a NaN = NaN"
| "js_div (Fin a) (Fin b) =
     (if b = 0 then (if a = 0 then NaN else if a > 0 then PosInf else NegInf)
      else Fin (a / b))"
| "js_div (Fin a) b = Fin 0"
| "js_div a (Fin b) = (if b \<ge> 0 then a else js_neg a)"
| "js_div a b = NaN"

text \<open>\<open>Math.max(a, b)\<close> and \<open>Math.min(a, b)\<close>.\<close>

fun js_max :: "jsnum \<Rightarrow> jsnum \<Rightarrow> jsnum" where
  "js_max NaN b = NaN"
| "js_max a NaN = NaN"
| "js_max a b = (if js_le a b then b else a)"

fun js_min :: "jsnum \<Rightarrow> jsnum \<Rightarrow> jsnum" where
  "js_min NaN b = NaN"
| "js_min a NaN = NaN"
| "js_min a b = (if js_le a b then a else b)"

subsection \<open>interpretOutputToProbability (popup.js, lines 572-599)\<close>

definition interpretOutputToProbability :: "jsnum list \<Rightarrow> jsnum option" where
  "interpretOutputToProbability outputData =
     (case outputData of
        [] \<Rightarrow> None
      | [rawValue] \<Rightarrow>
          (let probability =
                 (if js_ge rawValue (Fin 0) \<and> js_le rawValue (Fin 1) then rawValue
                  else js_div (Fin 1) (js_add (Fin 1) (js_exp (js_neg rawValue))))
           in Some (js_max (Fin 0) (js_min (Fin 1) probability)))
      | [o0, o1] \<Rightarrow>
          (let mx = js_max o0 o1;
               e0 = js_exp (js_sub o0 mx);
               e1 = js_exp (js_sub o1 mx);
               sm = js_add e0 e1;
               probability = js_div e1 sm
           in Some (js_max (Fin 0) (js_min (Fin 1) probability)))
      | _ \<Rightarrow> None)"

section \<open>Aggregation and verdict (analyzeFrame, popup.js, lines 921-991)\<close>

datatype prediction = MINOR | MAJOR

record classification =
  prediction :: prediction
  confidence :: real
  isMinor :: bool
  probability :: real
  inferenceCount :: nat

text \<open>
  Only finite numbers between 0 and 1 reach \<open>allProbabilities\<close> (the tests of lines 883 and
  905), so the aggregation is written on reals, with exact arithmetic, \<open>Math.sqrt\<close> as
  \<^const>\<open>sqrt\<close> and \<open>Math.abs\<close> as \<^const>\<open>abs\<close>. What the rounding of binary64 does to the
  average of line 922 and to the threshold test of line 973 is the subject of the next
  section.
\<close>

text \<open>Line 922: \<open>allProbabilities.reduce((a, b) => a + b, 0) / allProbabilities.length\<close>.\<close>

definition avgProb :: "real list \<Rightarrow> real" where
  "avgProb allProbabilities =
     foldl (\<lambda>a b. a + b) 0 allProbabilities / real (length allProbabilities)"

text \<open>Lines 935-937: \<open>Math.min(...allProbabilities)\<close> and \<open>Math.max(...allProbabilities)\<close>,
  evaluated only for a list of two or more probabilities.\<close>

definition minProb :: "real list \<Rightarrow> real" where
  "minProb allProbabilities = foldl min (hd allProbabilities) (tl allProbabilities)"

definition maxProb :: "real list \<Rightarrow> real" where
  "maxProb allProbabilities = foldl max (hd allProbabilities) (tl allProbabilities)"

definition range_of :: "real list \<Rightarrow> real" where
  "range_of allProbabilities = maxProb allProbabilities - minProb allProbabilities"

text \<open>Lines 938-940: population standard deviation around the average.\<close>

definition stdDev :: "real list \<Rightarrow> real" where
  "stdDev allProbabilities =
     sqrt (foldl (\<lambda>sum p. sum + (p - avgProb allProbabilities) ^ 2) 0 allProbabilities
           / real (length allProbabilities))"

text \<open>Lines 943-945: share of the passes on the majority side of 0.5.\<close>

definition majorVotes :: "real list \<Rightarrow> nat" where
  "majorVotes allProbabilities = length (filter (\<lambda>p. p \<ge> 0.5) allProbabilities)"

definition minorVotes :: "real list \<Rightarrow> nat" where
  "minorVotes allProbabilities = length (filter (\<lambda>p. p < 0.5) allProbabilities)"

definition agreement :: "real list \<Rightarrow> real" where
  "agreement allProbabilities =
     real (max (majorVotes allProbabilities) (minorVotes allProbabilities))
       / real (length allProbabilities)"

text \<open>Lines 927-967: the confidence before the verdict step, already clamped to
  \<open>[0.55, 0.95]\<close> by line 967.\<close>

definition aggregate_confidence :: "real list \<Rightarrow> real" where
  "aggregate_confidence allProbabilities =
     (let distanceFromThreshold = \<bar>avgProb allProbabilities - 0.5\<bar>;
          confidence =
            (if length allProbabilities = 1
             then min 0.95 (0.5 + distanceFromThreshold * 1.5)
             else
               (let c0 = agreement allProbabilities;
                    c1 = (if stdDev allProbabilities < 0.1 \<and> range_of allProbabilities < 0.2
                          then min 0.95 (c0 * 1.2) else c0);
                    c2 = min 0.95 (c1 + distanceFromThreshold * 0.4)
                in if stdDev allProbabilities > 0.15 \<or> range_of allProbabilities > 0.3
                   then c2 * 0.85 else c2))
      in max 0.55 (min 0.95 confidence))"

text \<open>Lines 972-991: the threshold decision and the near-boundary penalty, from the
  averaged probability \<open>p\<close>, the clamped confidence \<open>conf\<close> and the number of passes.\<close>

definition MAJOR_THRESHOLD :: real where
  "MAJOR_THRESHOLD = 0.52"

definition verdict :: "real \<Rightarrow> real \<Rightarrow> nat \<Rightarrow> classification" where
  "verdict p conf n =
     (let pred = (if p \<ge> MAJOR_THRESHOLD then MAJOR else MINOR);
          minor = (pred = MINOR);
          thresholdDistance =
            \<bar>p - (if minor then 1 - MAJOR_THRESHOLD else MAJOR_THRESHOLD)\<bar>;
          conf' = (if thresholdDistance < 0.08 then max 0.55 (conf * 0.85) else conf)
      in \<lparr> prediction = pred, confidence = conf', isMinor = minor,
           probability = p, inferenceCount = n \<rparr>)"

text \<open>The result object of lines 984-991 for the collected probabilities. \<open>analyzeFrame\<close>
  builds it only for a non-empty list (lines 896-919); on the empty list the division
  by the length, which is \<open>NaN\<close> in JavaScript, is 0 here.\<close>

definition classify :: "real list \<Rightarrow> classification" where
  "classify allProbabilities =
     verdict (avgProb allProbabilities) (aggregate_confidence allProbabilities)
       (length allProbabilities)"

section \<open>The average and the threshold test in binary64\<close>







section \<open>The analysis cycle and its collaborators\<close>

subsection \<open>Inference passes (analyzeFrame, popup.js, lines 854-919)\<close>

text \<open>
  One pass is \<open>preprocessImage\<close> followed by \<open>runInference\<close>, inside a \<open>try\<close>. The
  classifier is an external capability: what it does on a pass is an input of the model,
  either an exception (\<open>Throws\<close>, caught and logged by the loop) or the output data.
\<close>

datatype infer_result = Throws | Returns "jsnum list"

text \<open>The real value of a number that has passed the test
  \<open>!isNaN(prob) && prob >= 0 && prob <= 1\<close>; such a number is finite.\<close>

fun finite_value :: "jsnum \<Rightarrow> real" where
  "finite_value (Fin x) = x"
| "finite_value v = 0"

text \<open>The loop over \<open>CONFIG.TTA_PADDINGS\<close>, one capability outcome per padding value, in
  order; \<open>allProbabilities.push(prob)\<close> appends at the end.\<close>

fun run_passes :: "infer_result list \<Rightarrow> real list \<Rightarrow> real list" where
  "run_passes [] allProbabilities = allProbabilities"
| "run_passes (Throws # rest) allProbabilities = run_passes rest allProbabilities"
| "run_passes (Returns outputData # rest) allProbabilities =
     (case interpretOutputToProbability outputData of
        None \<Rightarrow> run_passes rest allProbabilities
      | Some prob \<Rightarrow>
          if \<not> isNaN prob \<and> js_ge prob (Fin 0) \<and> js_le prob (Fin 1)
          then run_passes rest (allProbabilities @ [finite_value prob])
          else run_passes rest allProbabilities)"

datatype analysis_error = ModelNotLoaded | FailedToAnalyze | NoValidPredictions

text \<open>Lines 896-915: the single fallback pass with \<open>CONFIG.FACE_PADDING\<close>. An invalid
  result throws inside the \<open>try\<close>, and every exception there is rethrown as
  "Failed to analyze image".\<close>

definition fallback_pass :: "infer_result \<Rightarrow> analysis_error + real list" where
  "fallback_pass r =
     (case r of
        Throws \<Rightarrow> Inl FailedToAnalyze
      | Returns fallbackData \<Rightarrow>
          (case interpretOutputToProbability fallbackData of
             None \<Rightarrow> Inl FailedToAnalyze
           | Some prob \<Rightarrow>
               if \<not> isNaN prob \<and> js_ge prob (Fin 0) \<and> js_le prob (Fin 1)
               then Inr [finite_value prob] else Inl FailedToAnalyze))"

subsection \<open>State of the popup, the store and the policy sink\<close>

text \<open>
  \<open>lastMinorState\<close>, \<open>isAnalyzing\<close> and \<open>session\<close> are the fields of the popup's \<open>state\<close>
  object (\<open>session\<close> records whether \<open>state.session\<close> is set). \<open>stored_isMinor\<close> and
  \<open>verificationAllowedUntil\<close> are the keys \<open>isMinor\<close> and \<open>verificationAllowedUntil\<close> of
  \<open>chrome.storage.local\<close>, the latter in milliseconds. \<open>safeSearchRules\<close> says whether the
  dynamic redirect rules of the background script are installed. \<open>sentMessages\<close> lists
  the \<open>minor\<close> flag of every \<open>SET_SAFE\<close> message issued with \<open>chrome.runtime.sendMessage\<close>,
  oldest first. Updates of the DOM are not modelled.
\<close>

record world =
  lastMinorState :: "bool option"
  isAnalyzing :: bool
  session :: bool
  stored_isMinor :: "bool option"
  verificationAllowedUntil :: "int option"
  safeSearchRules :: bool
  sentMessages :: "bool list"

text \<open>
  What a \<open>SET_SAFE\<close> message meets: \<open>sendMessage\<close> throws (\<open>SendThrows\<close>), the callback
  receives no response object (\<open>NoResponse\<close>), or the background script answers after
  \<open>setMinorMode\<close>, with \<open>Responds True\<close> when the rule update succeeded and
  \<open>Responds False\<close> when it failed (\<open>{ok: false, error: ...}\<close>). A message that is never
  answered, which leaves the cycle suspended, is outside the model.
\<close>

datatype sink_outcome = SendThrows | NoResponse | Responds bool

text \<open>The background script's \<open>setMinorMode\<close>: the store is written first, then the
  rules are enabled or disabled; a failed rule update leaves the rules as they were.\<close>

definition setMinorMode :: "bool \<Rightarrow> bool \<Rightarrow> world \<Rightarrow> world" where
  "setMinorMode rulesOk minor w =
     (let w' = w\<lparr>stored_isMinor := Some minor\<rparr>
      in if rulesOk then w'\<lparr>safeSearchRules := minor\<rparr> else w')"

definition deliver :: "sink_outcome \<Rightarrow> bool \<Rightarrow> world \<Rightarrow> world" where
  "deliver snk minor w =
     (case snk of
        SendThrows \<Rightarrow> w
      | NoResponse \<Rightarrow> w
      | Responds rulesOk \<Rightarrow> setMinorMode rulesOk minor w)"

text \<open>updateSafeSearch (popup.js, lines 673-715).\<close>

definition updateSafeSearch :: "sink_outcome \<Rightarrow> bool \<Rightarrow> world \<Rightarrow> world" where
  "updateSafeSearch snk minor w =
     (if lastMinorState w = Some minor then w
      else deliver snk minor
             (w\<lparr>lastMinorState := Some minor,
                sentMessages := sentMessages w @ [minor]\<rparr>))"

subsection \<open>analyzeFrame (popup.js, lines 749-1049)\<close>

text \<open>
  The inputs of one cycle that come from outside: the capability's outcome on each pass
  of the loop and on the fallback pass, the sink's behaviour, the value of \<open>Date.now()\<close>
  read at line 1018, and whether \<open>chrome.storage.local.set\<close> at line 1019 succeeds (its
  failure is caught and ignored there).
\<close>

record env =
  passes :: "infer_result list"
  fallback :: infer_result
  sink :: sink_outcome
  dateNow :: int
  storageSetOk :: bool

datatype cycle_outcome =
  AlreadyInProgress | AnalysisFailed analysis_error | Verdict classification

definition collect_probabilities :: "env \<Rightarrow> world \<Rightarrow> analysis_error + real list" where
  "collect_probabilities e w =
     (if \<not> session w then Inl ModelNotLoaded
      else
        (let allProbabilities = run_passes (passes e) []
         in case (if allProbabilities = [] then fallback_pass (fallback e)
                  else Inr allProbabilities) of
              Inl err \<Rightarrow> Inl err
            | Inr ps \<Rightarrow> if ps = [] then Inl NoValidPredictions else Inr ps))"

definition analyzeFrame :: "env \<Rightarrow> world \<Rightarrow> cycle_outcome \<times> world" where
  "analyzeFrame e w =
     (if isAnalyzing w then (AlreadyInProgress, w)
      else
        (case collect_probabilities e w of
           Inl err \<Rightarrow> (AnalysisFailed err, w\<lparr>isAnalyzing := False\<rparr>)
         | Inr allProbabilities \<Rightarrow>
             (let result = classify allProbabilities;
                  w1 = updateSafeSearch (sink e) (isMinor result) w;
                  w2 = (if storageSetOk e
                        then w1\<lparr>verificationAllowedUntil := Some (dateNow e + 60 * 60 * 1000)\<rparr>
                        else w1)
              in (Verdict result, w2\<lparr>isAnalyzing := False\<rparr>))))"

subsection \<open>Notions used to state the properties\<close>

text \<open>The probability that one capability outcome contributes to \<open>allProbabilities\<close>, if
  any: none for an exception, for an output that \<open>interpretOutputToProbability\<close> rejects,
  and for a result that is \<open>NaN\<close> or outside \<open>[0, 1]\<close>.\<close>

definition pass_probability :: "infer_result \<Rightarrow> real option" where
  "pass_probability r =
     (case r of
        Throws \<Rightarrow> None
      | Returns outputData \<Rightarrow>
          (case interpretOutputToProbability outputData of
             None \<Rightarrow> None
           | Some prob \<Rightarrow>
               if \<not> isNaN prob \<and> js_ge prob (Fin 0) \<and> js_le prob (Fin 1)
               then Some (finite_value prob) else None))"


text \<open>The sink call did not switch the policy: no message went through, or the
  background script reported a failed rule update.\<close>

fun sink_failed :: "sink_outcome \<Rightarrow> bool" where
  "sink_failed SendThrows = True"
| "sink_failed NoResponse = True"
| "sink_failed (Responds rulesOk) = (\<not> rulesOk)"

text \<open>The worlds and environments of the scenarios below.\<close>

definition fresh_world :: world where
  "fresh_world =
     \<lparr> lastMinorState = None, isAnalyzing = False, session = True,
       stored_isMinor = None, verificationAllowedUntil = None,
       safeSearchRules = False, sentMessages = [] \<rparr>"

definition single_pass :: "jsnum list \<Rightarrow> sink_outcome \<Rightarrow> int \<Rightarrow> bool \<Rightarrow> env" where
  "single_pass outputData snk t ok =
     \<lparr> passes = [Returns outputData], fallback = Throws, sink = snk,
       dateNow = t, storageSetOk = ok \<rparr>"

section \<open>Auxiliary facts\<close>

subsection \<open>The folds of the aggregation\<close>











subsection \<open>Reordering the passes\<close>









subsection \<open>Rounding to binary64\<close>
























subsection \<open>The verdict step\<close>

lemma verdict_fields:
  "prediction (verdict p c n) = (if p \<ge> 0.52 then MAJOR else MINOR)"
  "isMinor (verdict p c n) = (p < 0.52)"
  "probability (verdict p c n) = p"
  "inferenceCount (verdict p c n) = n"
  unfolding verdict_def Let_def MAJOR_THRESHOLD_def
  by (simp_all add: not_le)

lemma verdict_penalty:
  "confidence (verdict p c n) =
     (if \<bar>p - (if p \<ge> 0.52 then 0.52 else 1 - 0.52)\<bar> < 0.08
      then max 0.55 (c * 0.85) else c)"
proof (cases "p \<ge> 0.52")
  case True
  then show ?thesis unfolding verdict_def Let_def MAJOR_THRESHOLD_def by simp
next
  case False
  then show ?thesis unfolding verdict_def Let_def MAJOR_THRESHOLD_def by simp
qed

lemma if_one_of: "(if A then x else y) = y \<or> (if A then x else y) = x"
  by (cases A) simp_all

lemma clamp_lower: "0.55 \<le> max 0.55 (min 0.95 (x::real))"
  by simp

lemma clamp_upper: "max 0.55 (min 0.95 (x::real)) \<le> 0.95"
  by simp

lemma aggregate_confidence_range:
  "0.55 \<le> aggregate_confidence xs"
  "aggregate_confidence xs \<le> 0.95"
  unfolding aggregate_confidence_def Let_def
  by (rule clamp_lower, rule clamp_upper)

lemma verdict_confidence_range:
  assumes "0.55 \<le> c" and "c \<le> 0.95"
  shows "0.55 \<le> confidence (verdict p c n) \<and> confidence (verdict p c n) \<le> 0.95"
proof -
  have "confidence (verdict p c n) = c \<or> confidence (verdict p c n) = max 0.55 (c * 0.85)"
    unfolding verdict_penalty by (rule if_one_of)
  moreover have "0.55 \<le> max 0.55 (c * 0.85) \<and> max 0.55 (c * 0.85) \<le> 0.95"
    using assms by simp
  ultimately show ?thesis
    using assms by (elim disjE) (simp_all only:)
qed

lemma classify_single:
  "probability (classify [q]) = q"
  "prediction (classify [q]) = (if q \<ge> 0.52 then MAJOR else MINOR)"
  "isMinor (classify [q]) = (q < 0.52)"
  by (simp_all add: classify_def verdict_fields avgProb_def)

lemma classify_046: "isMinor (classify [0.46])" "prediction (classify [0.46]) = MINOR"
  by (simp_all add: classify_single)

subsection \<open>The output interpreter\<close>

lemma logistic_bounds: "0 < 1 / (1 + exp (- x::real))"
  "1 / (1 + exp (- x::real)) < 1"
  by (simp_all add: add_pos_pos)

lemma softmax_shift:
  "exp (b - m) / (exp (a - m) + exp (b - m)) = exp b / (exp a + exp (b::real))"
  by (simp add: exp_diff add_divide_distrib [symmetric])

lemma softmax_bounds:
  "0 \<le> exp b / (exp a + exp (b::real))"
  "exp b / (exp a + exp (b::real)) \<le> 1"
  by (simp_all add: add_pos_pos less_imp_le)

lemma clamp01_id: "0 \<le> q \<Longrightarrow> q \<le> 1 \<Longrightarrow> max 0 (min 1 q) = (q::real)"
  by simp

lemma js_clamp_Fin: "js_max (Fin 0) (js_min (Fin 1) (Fin q)) = Fin (max 0 (min 1 q))"
  by (simp add: max_def min_def)

lemma js_clamp_range:
  "case js_max (Fin 0) (js_min (Fin 1) v) of
     NaN \<Rightarrow> True | Fin p \<Rightarrow> 0 \<le> p \<and> p \<le> 1 | _ \<Rightarrow> False"
  by (cases v) simp_all

lemma interpret_single_probability:
  "0 \<le> x \<Longrightarrow> x \<le> 1 \<Longrightarrow> interpretOutputToProbability [Fin x] = Some (Fin x)"
  by (simp add: interpretOutputToProbability_def js_ge_def)

lemma interpret_single_logit:
  assumes out: "\<not> (0 \<le> x \<and> x \<le> 1)"
  shows "interpretOutputToProbability [Fin x] = Some (Fin (1 / (1 + exp (- x))))"
proof -
  have test: "\<not> (js_ge (Fin x) (Fin 0) \<and> js_le (Fin x) (Fin 1))"
    using out by (simp add: js_ge_def)
  have "1 + exp (- x) \<noteq> 0"
    using exp_gt_zero [of "- x"] by linarith
  then have logistic: "js_div (Fin 1) (js_add (Fin 1) (js_exp (js_neg (Fin x)))) =
      Fin (1 / (1 + exp (- x)))"
    by simp
  have "interpretOutputToProbability [Fin x] =
          Some (js_max (Fin 0) (js_min (Fin 1) (Fin (1 / (1 + exp (- x))))))"
    unfolding interpretOutputToProbability_def Let_def list.case if_not_P [OF test] logistic ..
  also have "\<dots> = Some (Fin (max 0 (min 1 (1 / (1 + exp (- x))))))"
    by (simp only: js_clamp_Fin)
  also have "max 0 (min 1 (1 / (1 + exp (- x)))) = 1 / (1 + exp (- x))"
    by (rule clamp01_id [OF less_imp_le [OF logistic_bounds(1)] less_imp_le [OF logistic_bounds(2)]])
  finally show ?thesis .
qed

lemma interpret_pair:
  "interpretOutputToProbability [Fin a, Fin b] = Some (Fin (exp b / (exp a + exp b)))"
proof -
  have mx: "js_max (Fin a) (Fin b) = Fin (max a b)"
    by (simp add: max_def)
  have "exp (a - max a b) + exp (b - max a b) \<noteq> 0"
    using exp_gt_zero [of "a - max a b"] exp_gt_zero [of "b - max a b"] by linarith
  then have weight:
    "js_div (js_exp (js_sub (Fin b) (Fin (max a b))))
       (js_add (js_exp (js_sub (Fin a) (Fin (max a b)))) (js_exp (js_sub (Fin b) (Fin (max a b)))))
     = Fin (exp (b - max a b) / (exp (a - max a b) + exp (b - max a b)))"
    by (simp add: js_sub_def)
  have "interpretOutputToProbability [Fin a, Fin b] =
          Some (js_max (Fin 0) (js_min (Fin 1)
            (Fin (exp (b - max a b) / (exp (a - max a b) + exp (b - max a b))))))"
    unfolding interpretOutputToProbability_def Let_def list.case mx weight ..
  also have "\<dots> = Some (Fin (max 0 (min 1 (exp b / (exp a + exp b)))))"
    by (simp only: js_clamp_Fin softmax_shift)
  also have "max 0 (min 1 (exp b / (exp a + exp b))) = exp b / (exp a + exp b)"
    by (rule clamp01_id [OF softmax_bounds(1) softmax_bounds(2)])
  finally show ?thesis .
qed

lemma interpret_range:
  "case interpretOutputToProbability outputData of
     None \<Rightarrow> True
   | Some NaN \<Rightarrow> True
   | Some (Fin p) \<Rightarrow> 0 \<le> p \<and> p \<le> 1
   | Some _ \<Rightarrow> False"
proof (cases outputData)
  case Nil
  then show ?thesis by (simp add: interpretOutputToProbability_def)
next
  case (Cons o0 rest)
  show ?thesis
  proof (cases rest)
    case Nil
    with Cons show ?thesis
      using js_clamp_range by (simp add: interpretOutputToProbability_def Let_def)
  next
    case tail: (Cons o1 rest')
    show ?thesis
    proof (cases rest')
      case Nil
      with Cons tail show ?thesis
        using js_clamp_range by (simp add: interpretOutputToProbability_def Let_def)
    next
      case (Cons o2 rest'')
      with \<open>outputData = o0 # rest\<close> tail show ?thesis
        by (simp add: interpretOutputToProbability_def)
    qed
  qed
qed

lemma js_NaN_right:
  "js_max v NaN = NaN" "js_add v NaN = NaN" "js_div v NaN = NaN" "js_sub v NaN = NaN"
  by (cases v; simp add: js_sub_def)+

lemma interpret_NaN:
  "interpretOutputToProbability [NaN] = Some NaN"
  "interpretOutputToProbability [NaN, v] = Some NaN"
  "interpretOutputToProbability [v, NaN] = Some NaN"
  by (simp_all add: interpretOutputToProbability_def Let_def js_ge_def js_NaN_right js_sub_def)

lemma interpret_infinite:
  "interpretOutputToProbability [PosInf] = Some (Fin 1)"
  "interpretOutputToProbability [NegInf] = Some (Fin 0)"
  by (simp_all add: interpretOutputToProbability_def Let_def js_ge_def)

lemma interpret_single_NaN_iff: "(interpretOutputToProbability [v] = Some NaN) = (v = NaN)"
proof (cases v)
  case (Fin x)
  then show ?thesis
    using interpret_single_probability [of x] interpret_single_logit [of x]
    by (cases "0 \<le> x \<and> x \<le> 1") auto
qed (simp_all add: interpret_NaN interpret_infinite)

lemma interpret_PosInf_left: "interpretOutputToProbability [PosInf, w] = Some NaN"
  by (cases w) (simp_all add: interpretOutputToProbability_def Let_def js_sub_def)

lemma interpret_PosInf_right: "interpretOutputToProbability [v, PosInf] = Some NaN"
  by (cases v) (simp_all add: interpretOutputToProbability_def Let_def js_sub_def)

lemma interpret_NegInf:
  "interpretOutputToProbability [NegInf, NegInf] = Some NaN"
  "interpretOutputToProbability [NegInf, Fin b] = Some (Fin 1)"
  "interpretOutputToProbability [Fin a, NegInf] = Some (Fin 0)"
  by (simp_all add: interpretOutputToProbability_def Let_def js_sub_def)

lemma interpret_pair_NaN_iff:
  "(interpretOutputToProbability [v, w] = Some NaN) =
     (v = NaN \<or> w = NaN \<or> v = PosInf \<or> w = PosInf \<or> (v = NegInf \<and> w = NegInf))"
  by (cases v; cases w)
     (simp_all add: interpret_NaN interpret_PosInf_left interpret_PosInf_right
        interpret_NegInf interpret_pair)

lemma interpret_other_length:
  "length outputData \<noteq> 1 \<Longrightarrow> length outputData \<noteq> 2 \<Longrightarrow>
     interpretOutputToProbability outputData = None"
  by (auto simp: interpretOutputToProbability_def split: list.splits)

subsection \<open>The softmax weight of the output (0.2, 0.8)\<close>

lemma exp_06_bounds: "1.78 \<le> exp (0.6::real)" "exp (0.6::real) \<le> 1.96"
proof -
  have "1 + 0.6 + (0.6::real)\<^sup>2 / 2 \<le> exp 0.6"
    by (rule exp_lower_Taylor_quadratic) simp
  then show "1.78 \<le> exp (0.6::real)"
    by (simp add: power2_eq_square)
  have "exp (0.6::real) \<le> 1 + 0.6 + 0.6\<^sup>2"
    by (rule exp_bound) simp_all
  then show "exp (0.6::real) \<le> 1.96"
    by (simp add: power2_eq_square)
qed

lemma softmax_02_08: "exp 0.8 / (exp 0.2 + exp (0.8::real)) = exp 0.6 / (1 + exp 0.6)"
proof -
  have "exp (0.8::real) = exp 0.6 * exp 0.2"
    by (simp add: exp_add [symmetric])
  then have "exp 0.8 / (exp 0.2 + exp (0.8::real)) = exp 0.6 * exp 0.2 / ((1 + exp 0.6) * exp 0.2)"
    by (simp add: algebra_simps)
  also have "\<dots> = exp 0.6 / (1 + exp 0.6)"
    by simp
  finally show ?thesis .
qed

lemma softmax_02_08_bounds:
  "0.64 \<le> exp 0.8 / (exp 0.2 + exp (0.8::real))"
  "exp 0.8 / (exp 0.2 + exp (0.8::real)) \<le> 0.67"
proof -
  have pos: "0 < 1 + exp (0.6::real)"
    by (simp add: add_pos_pos)
  show "0.64 \<le> exp 0.8 / (exp 0.2 + exp (0.8::real))"
    unfolding softmax_02_08 using exp_06_bounds(1) pos by (simp add: pos_le_divide_eq)
  show "exp 0.8 / (exp 0.2 + exp (0.8::real)) \<le> 0.67"
    unfolding softmax_02_08 using exp_06_bounds(2) pos by (simp add: pos_divide_le_eq)
qed

lemma above_064: "0.64 \<le> q \<Longrightarrow> 0.52 \<le> (q::real)"
  by simp

lemma below_067: "q \<le> 0.67 \<Longrightarrow> q \<noteq> (0.8::real)"
  by simp

subsection \<open>The pass loop\<close>

lemma run_passes_map_filter:
  "run_passes rs acc = acc @ List.map_filter pass_probability rs"
proof (induction rs acc rule: run_passes.induct)
  case (1 acc)
  show ?case by (simp add: List.map_filter_simps)
next
  case (2 rest acc)
  then show ?case by (simp add: List.map_filter_simps pass_probability_def)
next
  case (3 outputData rest acc)
  then show ?case
    by (cases "interpretOutputToProbability outputData")
       (simp_all add: List.map_filter_simps pass_probability_def)
qed

lemma pass_probability_bad_shape:
  "length outputData \<noteq> 1 \<Longrightarrow> length outputData \<noteq> 2 \<Longrightarrow>
     pass_probability (Returns outputData) = pass_probability Throws"
  by (simp add: pass_probability_def interpret_other_length)

lemma pass_probability_pair:
  "pass_probability (Returns [Fin a, Fin b]) = Some (exp b / (exp a + exp b))"
  using softmax_bounds [of b a]
  by (simp add: pass_probability_def interpret_pair isNaN_def js_ge_def)

lemma pass_probability_in_range:
  "0 \<le> x \<Longrightarrow> x \<le> 1 \<Longrightarrow> pass_probability (Returns [Fin x]) = Some x"
  by (simp add: pass_probability_def interpret_single_probability isNaN_def js_ge_def)

lemma pass_probability_NaN: "pass_probability (Returns [NaN]) = None"
  by (simp add: pass_probability_def interpret_NaN isNaN_def)

lemma pass_probability_046: "pass_probability (Returns [Fin 0.46]) = Some 0.46"
  by (rule pass_probability_in_range) simp_all

lemma all_throw_no_probability:
  "list_all (\<lambda>r. r = Throws) rs \<Longrightarrow> list_all (\<lambda>r. pass_probability r = None) rs"
  by (induction rs) (simp_all add: pass_probability_def)

lemma fallback_pass_probability:
  "fallback_pass r =
     (case pass_probability r of None \<Rightarrow> Inl FailedToAnalyze | Some prob \<Rightarrow> Inr [prob])"
proof (cases r)
  case Throws
  then show ?thesis by (simp add: fallback_pass_def pass_probability_def)
next
  case (Returns fallbackData)
  then show ?thesis
    by (cases "interpretOutputToProbability fallbackData")
       (simp_all add: fallback_pass_def pass_probability_def)
qed

lemma map_filter_all_None:
  "list_all (\<lambda>r. f r = None) rs \<Longrightarrow> List.map_filter f rs = []"
  by (induction rs) (simp_all add: List.map_filter_simps)

subsection \<open>The controller\<close>

lemma deliver_keeps:
  "lastMinorState (deliver snk minor w) = lastMinorState w"
  "sentMessages (deliver snk minor w) = sentMessages w"
  "isAnalyzing (deliver snk minor w) = isAnalyzing w"
  "session (deliver snk minor w) = session w"
  "verificationAllowedUntil (deliver snk minor w) = verificationAllowedUntil w"
  by (cases snk; simp add: deliver_def setMinorMode_def Let_def)+

lemma deliver_failed_rules:
  "sink_failed snk \<Longrightarrow> safeSearchRules (deliver snk minor w) = safeSearchRules w"
  by (cases snk) (simp_all add: deliver_def setMinorMode_def Let_def)

lemma deliver_ok:
  "safeSearchRules (deliver (Responds True) minor w) = minor"
  "stored_isMinor (deliver (Responds True) minor w) = Some minor"
  by (simp_all add: deliver_def setMinorMode_def Let_def)

lemma updateSafeSearch_records:
  "lastMinorState (updateSafeSearch snk minor w) = Some minor"
  by (simp add: updateSafeSearch_def deliver_keeps)

lemma updateSafeSearch_same:
  "lastMinorState w = Some minor \<Longrightarrow> updateSafeSearch snk minor w = w"
  by (simp add: updateSafeSearch_def)

lemma updateSafeSearch_sent:
  "sentMessages (updateSafeSearch snk minor w) =
     (if lastMinorState w = Some minor then sentMessages w else sentMessages w @ [minor])"
  by (simp add: updateSafeSearch_def deliver_keeps)

lemma updateSafeSearch_keeps:
  "isAnalyzing (updateSafeSearch snk minor w) = isAnalyzing w"
  "session (updateSafeSearch snk minor w) = session w"
  "verificationAllowedUntil (updateSafeSearch snk minor w) = verificationAllowedUntil w"
  by (simp_all add: updateSafeSearch_def deliver_keeps)

lemma updateSafeSearch_failed_rules:
  "sink_failed snk \<Longrightarrow> safeSearchRules (updateSafeSearch snk minor w) = safeSearchRules w"
  by (simp add: updateSafeSearch_def deliver_failed_rules)

subsection \<open>The cycle\<close>

lemma collect_failed:
  assumes "session w" and "list_all (\<lambda>r. pass_probability r = None) (passes e)"
    and "pass_probability (fallback e) = None"
  shows "collect_probabilities e w = Inl FailedToAnalyze"
  using assms
  by (simp add: collect_probabilities_def run_passes_map_filter map_filter_all_None
        fallback_pass_probability)

lemma collect_single:
  assumes "session w" and "passes e = [r]" and "pass_probability r = Some q"
  shows "collect_probabilities e w = Inr [q]"
  using assms
  by (simp add: collect_probabilities_def run_passes_map_filter List.map_filter_simps)

lemma analyzeFrame_verdict:
  assumes "analyzeFrame e w = (Verdict r, w')"
  shows "\<exists>ps. collect_probabilities e w = Inr ps \<and> r = classify ps \<and>
           w' = (let w1 = updateSafeSearch (sink e) (isMinor r) w;
                     w2 = (if storageSetOk e
                           then w1\<lparr>verificationAllowedUntil := Some (dateNow e + 60 * 60 * 1000)\<rparr>
                           else w1)
                 in w2\<lparr>isAnalyzing := False\<rparr>)"
  using assms
  by (cases "isAnalyzing w"; cases "collect_probabilities e w")
     (simp_all add: analyzeFrame_def Let_def)

lemma analyzeFrame_completed:
  assumes "\<not> isAnalyzing w" and "collect_probabilities e w = Inr ps"
  shows "analyzeFrame e w =
           (Verdict (classify ps),
            (let w1 = updateSafeSearch (sink e) (isMinor (classify ps)) w;
                 w2 = (if storageSetOk e
                       then w1\<lparr>verificationAllowedUntil := Some (dateNow e + 60 * 60 * 1000)\<rparr>
                       else w1)
             in w2\<lparr>isAnalyzing := False\<rparr>))"
  using assms by (simp add: analyzeFrame_def Let_def)

lemma analyzeFrame_after_verdict:
  assumes "analyzeFrame e w = (Verdict r, w')"
  shows "session w' = session w"
    "isAnalyzing w' = False"
    "lastMinorState w' = Some (isMinor r)"
    "sentMessages w' = sentMessages (updateSafeSearch (sink e) (isMinor r) w)"
    "safeSearchRules w' = safeSearchRules (updateSafeSearch (sink e) (isMinor r) w)"
    "stored_isMinor w' = stored_isMinor (updateSafeSearch (sink e) (isMinor r) w)"
    "verificationAllowedUntil w' =
       (if storageSetOk e then Some (dateNow e + 3600 * 1000)
        else verificationAllowedUntil w)"
proof -
  from analyzeFrame_verdict [OF assms]
  have w': "w' = (let w1 = updateSafeSearch (sink e) (isMinor r) w;
                      w2 = (if storageSetOk e
                            then w1\<lparr>verificationAllowedUntil := Some (dateNow e + 60 * 60 * 1000)\<rparr>
                            else w1)
                  in w2\<lparr>isAnalyzing := False\<rparr>)"
    by blast
  show "session w' = session w"
    "isAnalyzing w' = False"
    "lastMinorState w' = Some (isMinor r)"
    "sentMessages w' = sentMessages (updateSafeSearch (sink e) (isMinor r) w)"
    "safeSearchRules w' = safeSearchRules (updateSafeSearch (sink e) (isMinor r) w)"
    "stored_isMinor w' = stored_isMinor (updateSafeSearch (sink e) (isMinor r) w)"
    "verificationAllowedUntil w' =
       (if storageSetOk e then Some (dateNow e + 3600 * 1000)
        else verificationAllowedUntil w)"
    unfolding w' Let_def
    by (simp_all add: updateSafeSearch_keeps updateSafeSearch_records)
qed

lemma analyzeFrame_same_inputs:
  assumes "collect_probabilities e w = collect_probabilities e' w"
    and "sink e = sink e'" and "storageSetOk e = storageSetOk e'" and "dateNow e = dateNow e'"
  shows "analyzeFrame e w = analyzeFrame e' w"
  unfolding analyzeFrame_def assms ..

lemma single_pass_cycle:
  assumes "\<not> isAnalyzing w" and "session w" and "passes e = [p]"
    and "pass_probability p = Some q"
  shows "\<exists>w'. analyzeFrame e w = (Verdict (classify [q]), w')"
  using analyzeFrame_completed [OF assms(1) collect_single [OF assms(2,3,4)]] by blast

lemma single_pass_major:
  assumes "\<not> isAnalyzing w" and "session w" and "passes e = [r]"
    and "pass_probability r = Some q" and "0.52 \<le> q"
  shows "\<exists>res w'. analyzeFrame e w = (Verdict res, w') \<and>
           probability res = q \<and> prediction res = MAJOR \<and> isMinor res = False \<and>
           lastMinorState w' = Some False \<and>
           sentMessages w' =
             (if lastMinorState w = Some False then sentMessages w
              else sentMessages w @ [False]) \<and>
           (if lastMinorState w = Some False then safeSearchRules w' = safeSearchRules w
            else if sink e = Responds True
                 then safeSearchRules w' = False \<and> stored_isMinor w' = Some False
                 else True) \<and>
           verificationAllowedUntil w' =
             (if storageSetOk e then Some (dateNow e + 3600 * 1000)
              else verificationAllowedUntil w)"
proof -
  have "collect_probabilities e w = Inr [q]"
    using assms(2,3,4) by (rule collect_single)
  note run = analyzeFrame_completed [OF assms(1) this]
  have major: "isMinor (classify [q]) = False" "prediction (classify [q]) = MAJOR"
    using assms(5) by (simp_all add: classify_single)
  show ?thesis
    unfolding run Let_def
    by (simp add: major classify_single(1) updateSafeSearch_records updateSafeSearch_sent
          updateSafeSearch_keeps updateSafeSearch_same)
       (simp add: updateSafeSearch_def deliver_ok deliver_keeps)
qed

subsection \<open>The worlds and environments of the scenarios\<close>

lemma fresh_world_fields:
  "lastMinorState fresh_world = None" "isAnalyzing fresh_world = False"
  "session fresh_world = True" "stored_isMinor fresh_world = None"
  "verificationAllowedUntil fresh_world = None" "safeSearchRules fresh_world = False"
  "sentMessages fresh_world = []"
  by (simp_all add: fresh_world_def)

lemma single_pass_fields:
  "passes (single_pass d snk t ok) = [Returns d]" "fallback (single_pass d snk t ok) = Throws"
  "sink (single_pass d snk t ok) = snk" "dateNow (single_pass d snk t ok) = t"
  "storageSetOk (single_pass d snk t ok) = ok"
  by (simp_all add: single_pass_def)

section \<open>Properties of the decision pipeline\<close>

text \<open>
  C1. For every list of per-pass probabilities, in particular every non-empty one and
  the single passes 0.0 and 1.0, the confidence of the result that \<open>analyzeFrame\<close>
  builds, after the clamp of line 967 and the near-boundary penalty of lines 976-982,
  lies in the closed interval from 0.55 to 0.95.
\<close>

theorem confidence_in_range:
  "0.55 \<le> confidence (classify allProbabilities) \<and>
   confidence (classify allProbabilities) \<le> 0.95"
  unfolding classify_def
  by (rule verdict_confidence_range [OF aggregate_confidence_range(1) aggregate_confidence_range(2)])

theorem confidence_in_range_witness:
  "0.55 \<le> confidence (classify [0]) \<and> confidence (classify [0]) \<le> 0.95 \<and>
   0.55 \<le> confidence (classify [1]) \<and> confidence (classify [1]) \<le> 0.95"
  using confidence_in_range [of "[0]"] confidence_in_range [of "[1]"] by (simp only:)

text \<open>
  C2. The verdict is a function of the aggregated probability \<open>p\<close> alone: MAJOR when
  \<open>p \<ge> 0.52\<close>, MINOR otherwise. When \<open>p\<close> is closer than 0.08 to the boundary reference
  (0.52 for MAJOR, \<open>1 - 0.52\<close> for MINOR), the confidence \<open>c\<close> becomes \<open>c * 0.85\<close>, but not
  less than 0.55; otherwise it is left as it is.
\<close>

theorem verdict_threshold_and_penalty:
  "prediction (verdict p c n) = (if p \<ge> 0.52 then MAJOR else MINOR) \<and>
   isMinor (verdict p c n) = (prediction (verdict p c n) = MINOR) \<and>
   confidence (verdict p c n) =
     (if \<bar>p - (if prediction (verdict p c n) = MAJOR then 0.52 else 1 - 0.52)\<bar> < 0.08
      then max 0.55 (c * 0.85) else c) \<and>
   prediction (classify allProbabilities) =
     (if avgProb allProbabilities \<ge> 0.52 then MAJOR else MINOR)"
proof (intro conjI)
  show "prediction (verdict p c n) = (if p \<ge> 0.52 then MAJOR else MINOR)"
    by (rule verdict_fields(1))
  show "isMinor (verdict p c n) = (prediction (verdict p c n) = MINOR)"
    by (cases "p \<ge> 0.52") (simp_all add: verdict_fields(1,2))
  show "confidence (verdict p c n) =
     (if \<bar>p - (if prediction (verdict p c n) = MAJOR then 0.52 else 1 - 0.52)\<bar> < 0.08
      then max 0.55 (c * 0.85) else c)"
    by (cases "p \<ge> 0.52")
       (simp_all only: verdict_penalty verdict_fields(1) if_True if_False
          prediction.distinct refl)
  show "prediction (classify allProbabilities) =
     (if avgProb allProbabilities \<ge> 0.52 then MAJOR else MINOR)"
    unfolding classify_def by (rule verdict_fields(1))
qed

theorem verdict_threshold_and_penalty_witness:
  "prediction (verdict 0.5 0.6 1) = MINOR \<and> isMinor (verdict 0.5 0.6 1) \<and>
   confidence (verdict 0.5 0.6 1) = 0.55 \<and>
   prediction (verdict 0.56 0.8 1) = MAJOR \<and> confidence (verdict 0.56 0.8 1) = 0.68 \<and>
   prediction (verdict 0.9 0.8 1) = MAJOR \<and> confidence (verdict 0.9 0.8 1) = 0.8"
  using verdict_threshold_and_penalty [of "0.5" "0.6" 1 "[]"]
    verdict_threshold_and_penalty [of "0.56" "0.8" 1 "[]"]
    verdict_threshold_and_penalty [of "0.9" "0.8" 1 "[]"]
  by simp




text \<open>
  C4, as the code has it. On a raw output of length 1 a finite value is returned as it
  is when it lies in \<open>[0, 1]\<close>, and as its logistic image \<open>1 / (1 + e\<^sup>-\<^sup>x)\<close> otherwise; on a raw
  output of two finite values the softmax weight of index 1 is returned. Whatever the
  output holds, the result is absent, \<open>NaN\<close>, or a number in \<open>[0, 1]\<close>: the clamp of line 598
  lets \<open>NaN\<close> through. The result is \<open>NaN\<close> exactly when the single value is \<open>NaN\<close>, or when
  one of two values is \<open>NaN\<close> or \<open>+Infinity\<close> or both are \<open>-Infinity\<close>; the loop of
  \<open>analyzeFrame\<close> drops a pass with such a result.
\<close>

theorem interpretOutputToProbability_cases:
  "interpretOutputToProbability [Fin x] =
     Some (Fin (if 0 \<le> x \<and> x \<le> 1 then x else 1 / (1 + exp (- x)))) \<and>
   interpretOutputToProbability [Fin a, Fin b] = Some (Fin (exp b / (exp a + exp b))) \<and>
   (case interpretOutputToProbability outputData of
      None \<Rightarrow> True
    | Some NaN \<Rightarrow> True
    | Some (Fin p) \<Rightarrow> 0 \<le> p \<and> p \<le> 1
    | Some _ \<Rightarrow> False) \<and>
   (interpretOutputToProbability [v] = Some NaN) = (v = NaN) \<and>
   (interpretOutputToProbability [v, w] = Some NaN) =
     (v = NaN \<or> w = NaN \<or> v = PosInf \<or> w = PosInf \<or> (v = NegInf \<and> w = NegInf)) \<and>
   pass_probability (Returns [NaN]) = None"
proof (intro conjI)
  show "interpretOutputToProbability [Fin x] =
     Some (Fin (if 0 \<le> x \<and> x \<le> 1 then x else 1 / (1 + exp (- x))))"
  proof (cases "0 \<le> x \<and> x \<le> 1")
    case True
    then show ?thesis by (simp add: interpret_single_probability)
  next
    case False
    from interpret_single_logit [OF False] show ?thesis
      by (simp only: False if_False)
  qed
  show "interpretOutputToProbability [Fin a, Fin b] = Some (Fin (exp b / (exp a + exp b)))"
    by (rule interpret_pair)
  show "case interpretOutputToProbability outputData of
      None \<Rightarrow> True
    | Some NaN \<Rightarrow> True
    | Some (Fin p) \<Rightarrow> 0 \<le> p \<and> p \<le> 1
    | Some _ \<Rightarrow> False"
    by (rule interpret_range)
  show "(interpretOutputToProbability [v] = Some NaN) = (v = NaN)"
    by (rule interpret_single_NaN_iff)
  show "(interpretOutputToProbability [v, w] = Some NaN) =
     (v = NaN \<or> w = NaN \<or> v = PosInf \<or> w = PosInf \<or> (v = NegInf \<and> w = NegInf))"
    by (rule interpret_pair_NaN_iff)
  show "pass_probability (Returns [NaN]) = None"
    by (rule pass_probability_NaN)
qed

theorem interpretOutputToProbability_cases_witness:
  "interpretOutputToProbability [Fin 0.46] = Some (Fin 0.46) \<and>
   interpretOutputToProbability [Fin 2] = Some (Fin (1 / (1 + exp (- 2)))) \<and>
   interpretOutputToProbability [Fin 0, Fin 0] = Some (Fin (1 / 2)) \<and>
   interpretOutputToProbability [Fin 0, PosInf] = Some NaN"
  using interpretOutputToProbability_cases [of "0.46" 0 0 "[]" "Fin 0" PosInf]
    interpretOutputToProbability_cases [of 2 0 0 "[]" NaN NaN]
  by simp

theorem interpretOutputToProbability_NaN_counterexample:
  "interpretOutputToProbability [NaN] = Some NaN \<and>
   \<not> (js_ge NaN (Fin 0) \<and> js_le NaN (Fin 1))"
  by (simp add: interpret_NaN js_ge_def)

text \<open>
  C5, as the code has it. A single-pass analysis whose raw output is the vector
  \<open>(0.2, 0.8)\<close> completes with the softmax weight \<open>e\<^sup>0\<^sup>.\<^sup>8 / (e\<^sup>0\<^sup>.\<^sup>2 + e\<^sup>0\<^sup>.\<^sup>8)\<close>, between 0.64 and
  0.67, as probability. The verdict is MAJOR, the recorded state becomes "not minor", a
  disable message is issued unless that state was recorded already, a sink that answers
  with success removes the rules and stores \<open>isMinor = false\<close>, and the verification
  window is set to the time of the write plus one hour when the store accepts the write.
\<close>

theorem scenario_A_softmax_verdict:
  assumes "\<not> isAnalyzing w" and "session w" and "passes e = [Returns [Fin 0.2, Fin 0.8]]"
  shows "case analyzeFrame e w of
           (Verdict r, w') \<Rightarrow>
             probability r = exp 0.8 / (exp 0.2 + exp 0.8) \<and>
             0.64 \<le> probability r \<and> probability r \<le> 0.67 \<and>
             prediction r = MAJOR \<and> isMinor r = False \<and>
             lastMinorState w' = Some False \<and>
             sentMessages w' =
               (if lastMinorState w = Some False then sentMessages w
                else sentMessages w @ [False]) \<and>
             (if lastMinorState w = Some False then safeSearchRules w' = safeSearchRules w
              else if sink e = Responds True
                   then safeSearchRules w' = False \<and> stored_isMinor w' = Some False
                   else True) \<and>
             verificationAllowedUntil w' =
               (if storageSetOk e then Some (dateNow e + 3600 * 1000)
                else verificationAllowedUntil w)
         | _ \<Rightarrow> False"
proof -
  let ?q = "exp 0.8 / (exp 0.2 + exp (0.8::real))"
  have "0.52 \<le> ?q"
    using softmax_02_08_bounds(1) by (rule above_064)
  with assms pass_probability_pair [of "0.2" "0.8"]
  obtain res w' where run: "analyzeFrame e w = (Verdict res, w')"
    and p: "probability res = ?q"
    and rest: "prediction res = MAJOR" "isMinor res = False" "lastMinorState w' = Some False"
      "sentMessages w' =
         (if lastMinorState w = Some False then sentMessages w else sentMessages w @ [False])"
      "if lastMinorState w = Some False then safeSearchRules w' = safeSearchRules w
       else if sink e = Responds True
            then safeSearchRules w' = False \<and> stored_isMinor w' = Some False
            else True"
      "verificationAllowedUntil w' =
         (if storageSetOk e then Some (dateNow e + 3600 * 1000)
          else verificationAllowedUntil w)"
    using single_pass_major [of w e "Returns [Fin 0.2, Fin 0.8]" ?q] by blast
  have "0.64 \<le> probability res" "probability res \<le> 0.67"
    unfolding p by (rule softmax_02_08_bounds)+
  with p rest show ?thesis
    unfolding run prod.case cycle_outcome.case by (intro conjI)
qed

theorem scenario_A_softmax_verdict_witness:
  "case analyzeFrame (single_pass [Fin 0.2, Fin 0.8] (Responds True) 1000 True) fresh_world of
     (Verdict r, w') \<Rightarrow>
        probability r = exp 0.8 / (exp 0.2 + exp 0.8) \<and> prediction r = MAJOR \<and>
        lastMinorState w' = Some False \<and> sentMessages w' = [False] \<and>
        safeSearchRules w' = False \<and> stored_isMinor w' = Some False \<and>
        verificationAllowedUntil w' = Some 3601000
   | _ \<Rightarrow> False"
proof -
  let ?e = "single_pass [Fin 0.2, Fin 0.8] (Responds True) 1000 True"
  have "\<not> isAnalyzing fresh_world" "session fresh_world"
    by (simp_all add: fresh_world_def)
  moreover have "passes ?e = [Returns [Fin 0.2, Fin 0.8]]"
    by (simp add: single_pass_def)
  ultimately have *: "case analyzeFrame ?e fresh_world of
           (Verdict r, w') \<Rightarrow>
             probability r = exp 0.8 / (exp 0.2 + exp 0.8) \<and>
             0.64 \<le> probability r \<and> probability r \<le> 0.67 \<and>
             prediction r = MAJOR \<and> isMinor r = False \<and>
             lastMinorState w' = Some False \<and>
             sentMessages w' =
               (if lastMinorState fresh_world = Some False then sentMessages fresh_world
                else sentMessages fresh_world @ [False]) \<and>
             (if lastMinorState fresh_world = Some False
              then safeSearchRules w' = safeSearchRules fresh_world
              else if sink ?e = Responds True
                   then safeSearchRules w' = False \<and> stored_isMinor w' = Some False
                   else True) \<and>
             verificationAllowedUntil w' =
               (if storageSetOk ?e then Some (dateNow ?e + 3600 * 1000)
                else verificationAllowedUntil fresh_world)
         | _ \<Rightarrow> False"
    by (rule scenario_A_softmax_verdict)
  obtain out w' where run: "analyzeFrame ?e fresh_world = (out, w')"
    by (cases "analyzeFrame ?e fresh_world")
  show ?thesis
    using * unfolding run
    by (cases out) (simp_all add: fresh_world_def single_pass_def)
qed

theorem scenario_A_probability_counterexample:
  "interpretOutputToProbability [Fin 0.2, Fin 0.8] \<noteq> Some (Fin 0.8) \<and>
   fst (analyzeFrame (single_pass [Fin 0.2, Fin 0.8] (Responds True) 1000 True) fresh_world) =
     Verdict (classify [exp 0.8 / (exp 0.2 + exp 0.8)]) \<and>
   probability (classify [exp 0.8 / (exp 0.2 + exp 0.8)]) \<noteq> 0.8"
proof -
  let ?e = "single_pass [Fin 0.2, Fin 0.8] (Responds True) 1000 True"
  let ?q = "exp 0.8 / (exp 0.2 + exp (0.8::real))"
  have differs: "?q \<noteq> 0.8"
    using softmax_02_08_bounds(2) by (rule below_067)
  have "session fresh_world" and idle: "\<not> isAnalyzing fresh_world"
    by (simp_all add: fresh_world_fields)
  moreover have "passes ?e = [Returns [Fin 0.2, Fin 0.8]]"
    by (simp add: single_pass_fields)
  ultimately have "collect_probabilities ?e fresh_world = Inr [?q]"
    using pass_probability_pair [of "0.2" "0.8"] by (intro collect_single)
  from analyzeFrame_completed [OF idle this]
  have "fst (analyzeFrame ?e fresh_world) = Verdict (classify [?q])"
    by (simp only: fst_conv)
  moreover have "interpretOutputToProbability [Fin 0.2, Fin 0.8] \<noteq> Some (Fin 0.8)"
    unfolding interpret_pair using differs
    by (simp only: option.inject jsnum.inject not_False_eq_True)
  moreover have "probability (classify [?q]) \<noteq> 0.8"
    unfolding classify_single(1) by (rule differs)
  ultimately show ?thesis
    by (intro conjI)
qed

text \<open>
  C6. When the classifier capability throws on every pass of the loop and on the
  fallback pass, the cycle ends as failed: the outcome is \<open>AnalysisFailed\<close>, not a verdict,
  and the world after the cycle is the world before it, so the stored \<open>isMinor\<close>, the
  redirect rules, the stored \<open>verificationAllowedUntil\<close> and \<open>lastMinorState\<close> are unchanged
  and no message is sent.
\<close>

theorem inference_unavailable_changes_nothing:
  assumes "\<not> isAnalyzing w" and "session w"
    and "list_all (\<lambda>r. r = Throws) (passes e)" and "fallback e = Throws"
  shows "analyzeFrame e w = (AnalysisFailed FailedToAnalyze, w)"
proof -
  have "list_all (\<lambda>r. pass_probability r = None) (passes e)"
    using assms(3) by (rule all_throw_no_probability)
  moreover have "pass_probability (fallback e) = None"
    using assms(4) by (simp add: pass_probability_def)
  ultimately have "collect_probabilities e w = Inl FailedToAnalyze"
    using assms(2) by (intro collect_failed)
  then show ?thesis
    using assms(1) by (simp add: analyzeFrame_def)
qed

theorem inference_unavailable_changes_nothing_witness:
  "analyzeFrame \<lparr> passes = [Throws, Throws, Throws], fallback = Throws, sink = Responds True,
                  dateNow = 1000, storageSetOk = True \<rparr> fresh_world
     = (AnalysisFailed FailedToAnalyze, fresh_world)"
proof -
  let ?e = "\<lparr> passes = [Throws, Throws, Throws], fallback = Throws, sink = Responds True,
              dateNow = 1000, storageSetOk = True \<rparr>"
  have "\<not> isAnalyzing fresh_world" and "session fresh_world"
    by (simp_all add: fresh_world_def)
  moreover have "list_all (\<lambda>r. r = Throws) (passes ?e)" and "fallback ?e = Throws"
    by simp_all
  ultimately show ?thesis
    by (rule inference_unavailable_changes_nothing)
qed

text \<open>
  C7, as the code has it. After every cycle that completes with a verdict, whatever the
  verdict and whatever the policy sink did, the stored \<open>verificationAllowedUntil\<close> is the
  time read at the write plus 3600 seconds (in milliseconds) when the write to the store
  succeeds; a rejected write is caught and ignored (lines 1017-1020), and the earlier
  value stays.
\<close>

theorem verification_window_after_verdict:
  assumes "analyzeFrame e w = (Verdict r, w')"
  shows "verificationAllowedUntil w' =
           (if storageSetOk e then Some (dateNow e + 3600 * 1000)
            else verificationAllowedUntil w)"
  using assms by (rule analyzeFrame_after_verdict(7))

theorem verification_window_after_verdict_witness:
  "\<exists>w'. analyzeFrame (single_pass [Fin 0.46] (Responds False) 1000 True) fresh_world
            = (Verdict (classify [0.46]), w') \<and>
        verificationAllowedUntil w' = Some 3601000"
proof -
  let ?e = "single_pass [Fin 0.46] (Responds False) 1000 True"
  obtain w' where run: "analyzeFrame ?e fresh_world = (Verdict (classify [0.46]), w')"
    using single_pass_cycle [of fresh_world ?e "Returns [Fin 0.46]" "0.46"] pass_probability_046
    by (auto simp: fresh_world_fields single_pass_fields)
  from verification_window_after_verdict [OF run]
  have "verificationAllowedUntil w' = Some 3601000"
    by (simp add: single_pass_fields)
  with run show ?thesis
    by blast
qed

theorem verification_window_counterexample:
  "fst (analyzeFrame (single_pass [Fin 0.46] (Responds True) 1000 False) fresh_world) =
     Verdict (classify [0.46]) \<and>
   verificationAllowedUntil
     (snd (analyzeFrame (single_pass [Fin 0.46] (Responds True) 1000 False) fresh_world)) \<noteq>
     Some (1000 + 3600 * 1000)"
proof -
  let ?e = "single_pass [Fin 0.46] (Responds True) 1000 False"
  obtain w' where run: "analyzeFrame ?e fresh_world = (Verdict (classify [0.46]), w')"
    using single_pass_cycle [of fresh_world ?e "Returns [Fin 0.46]" "0.46"] pass_probability_046
    by (auto simp: fresh_world_fields single_pass_fields)
  from analyzeFrame_after_verdict(7) [OF run]
  have "verificationAllowedUntil w' = None"
    by (simp add: single_pass_fields fresh_world_fields)
  then show ?thesis
    unfolding run by simp
qed

text \<open>
  C8. Two calls of \<open>updateSafeSearch\<close> in a row with the same verdict: the second call
  leaves the whole world as the first one left it, whatever the sink would have done,
  so it sends no message; the two calls together issue at most one \<open>SET_SAFE\<close> message.
\<close>

theorem updateSafeSearch_second_call_noop:
  "updateSafeSearch snk2 minor (updateSafeSearch snk1 minor w) = updateSafeSearch snk1 minor w \<and>
   sentMessages (updateSafeSearch snk2 minor (updateSafeSearch snk1 minor w)) =
     (if lastMinorState w = Some minor then sentMessages w else sentMessages w @ [minor])"
proof -
  have "updateSafeSearch snk2 minor (updateSafeSearch snk1 minor w) =
          updateSafeSearch snk1 minor w"
    by (rule updateSafeSearch_same) (rule updateSafeSearch_records)
  then show ?thesis
    by (simp only: updateSafeSearch_sent simp_thms)
qed

theorem updateSafeSearch_second_call_noop_witness:
  "sentMessages (updateSafeSearch (Responds True) True
      (updateSafeSearch (Responds False) True fresh_world)) = [True]"
proof -
  from updateSafeSearch_second_call_noop [of "Responds True" True "Responds False" fresh_world]
  have "sentMessages (updateSafeSearch (Responds True) True
          (updateSafeSearch (Responds False) True fresh_world)) =
        (if lastMinorState fresh_world = Some True then sentMessages fresh_world
         else sentMessages fresh_world @ [True])"
    by (rule conjunct2)
  then show ?thesis
    by (simp add: fresh_world_fields)
qed

text \<open>
  C9. A raw output whose length is neither 1 nor 2 is rejected by
  \<open>interpretOutputToProbability\<close>, and in the loop only that pass is dropped: the passes
  before and after it are collected as if it were absent, and the whole cycle runs as
  if that pass had thrown. A cycle that has reached the inference stage fails exactly
  when the other passes leave \<open>allProbabilities\<close> empty and the fallback pass yields no
  valid probability; otherwise it completes with a verdict.
\<close>

theorem unsupported_shape_discards_only_that_pass:
  assumes "length outputData \<noteq> 1" and "length outputData \<noteq> 2"
    and "\<not> isAnalyzing w" and "session w"
    and "passes e = before @ Returns outputData # after"
  shows "interpretOutputToProbability outputData = None \<and>
         run_passes (passes e) [] = run_passes (before @ after) [] \<and>
         analyzeFrame e w = analyzeFrame (e\<lparr>passes := before @ Throws # after\<rparr>) w \<and>
         (fst (analyzeFrame e w) = AnalysisFailed FailedToAnalyze) =
           (run_passes (before @ after) [] = [] \<and> pass_probability (fallback e) = None) \<and>
         (\<exists>r. fst (analyzeFrame e w) = Verdict r) =
           (\<not> (run_passes (before @ after) [] = [] \<and> pass_probability (fallback e) = None))"
proof -
  have none: "pass_probability (Returns outputData) = None"
    using pass_probability_bad_shape [OF assms(1,2)] by (simp add: pass_probability_def)
  have drop: "run_passes (passes e) [] = run_passes (before @ after) []"
    unfolding assms(5) run_passes_map_filter
    by (simp add: List.map_filter_def none)
  have "run_passes (before @ Throws # after) [] = run_passes (before @ after) []"
    unfolding run_passes_map_filter
    by (simp add: List.map_filter_def pass_probability_def)
  then have same: "collect_probabilities e w =
      collect_probabilities (e\<lparr>passes := before @ Throws # after\<rparr>) w"
    using drop by (simp add: collect_probabilities_def Let_def)
  have thrown: "analyzeFrame e w = analyzeFrame (e\<lparr>passes := before @ Throws # after\<rparr>) w"
    using same by (intro analyzeFrame_same_inputs) simp_all
  let ?empty = "run_passes (before @ after) [] = [] \<and> pass_probability (fallback e) = None"
  have failed: "fst (analyzeFrame e w) = AnalysisFailed FailedToAnalyze" if "?empty"
  proof -
    from that have "collect_probabilities e w = Inl FailedToAnalyze"
      using assms(4) drop
      by (simp add: collect_probabilities_def fallback_pass_probability)
    then show ?thesis
      using assms(3) by (simp add: analyzeFrame_def)
  qed
  have completed: "\<exists>r. fst (analyzeFrame e w) = Verdict r" if "\<not> ?empty"
  proof -
    from that have "\<exists>ps. collect_probabilities e w = Inr ps"
      using assms(4) drop
      by (cases "pass_probability (fallback e)")
         (auto simp: collect_probabilities_def fallback_pass_probability Let_def)
    then obtain ps where "collect_probabilities e w = Inr ps"
      by blast
    from analyzeFrame_completed [OF assms(3) this]
    show ?thesis
      by simp
  qed
  show ?thesis
  proof (intro conjI)
    show "interpretOutputToProbability outputData = None"
      by (rule interpret_other_length [OF assms(1,2)])
    show "run_passes (passes e) [] = run_passes (before @ after) []"
      by (rule drop)
    show "analyzeFrame e w = analyzeFrame (e\<lparr>passes := before @ Throws # after\<rparr>) w"
      by (rule thrown)
    show "(fst (analyzeFrame e w) = AnalysisFailed FailedToAnalyze) = ?empty"
      using failed completed by (cases "?empty") auto
    show "(\<exists>r. fst (analyzeFrame e w) = Verdict r) = (\<not> ?empty)"
      using failed completed by (cases "?empty") auto
  qed
qed

theorem unsupported_shape_discards_only_that_pass_witness:
  "run_passes [Returns [Fin 0.46], Returns [Fin 0.1, Fin 0.2, Fin 0.7], Returns [Fin 0.5]] [] = [0.46, 0.5] \<and>
   fst (analyzeFrame
         \<lparr> passes = [Returns [Fin 0.46], Returns [Fin 0.1, Fin 0.2, Fin 0.7], Returns [Fin 0.5]],
           fallback = Throws, sink = Responds True, dateNow = 1000, storageSetOk = True \<rparr>
         fresh_world) \<noteq> AnalysisFailed FailedToAnalyze"
proof -
  let ?e = "\<lparr> passes = [Returns [Fin 0.46], Returns [Fin 0.1, Fin 0.2, Fin 0.7], Returns [Fin 0.5]],
              fallback = Throws, sink = Responds True, dateNow = 1000, storageSetOk = True \<rparr>"
  have len: "length [Fin 0.1, Fin 0.2, Fin 0.7] \<noteq> 1" "length [Fin 0.1, Fin 0.2, Fin 0.7] \<noteq> 2"
    by simp_all
  have idle: "\<not> isAnalyzing fresh_world" "session fresh_world"
    by (simp_all add: fresh_world_fields)
  have shape: "passes ?e = [Returns [Fin 0.46]] @ Returns [Fin 0.1, Fin 0.2, Fin 0.7] # [Returns [Fin 0.5]]"
    by simp
  have rest: "run_passes ([Returns [Fin 0.46]] @ [Returns [Fin 0.5]]) [] = [0.46, 0.5]"
    by (simp add: interpret_single_probability isNaN_def js_ge_def)
  note claim = unsupported_shape_discards_only_that_pass [OF len idle shape]
  from claim have "run_passes (passes ?e) [] = run_passes ([Returns [Fin 0.46]] @ [Returns [Fin 0.5]]) []"
    by (elim conjE)
  then have collected:
    "run_passes [Returns [Fin 0.46], Returns [Fin 0.1, Fin 0.2, Fin 0.7], Returns [Fin 0.5]] [] = [0.46, 0.5]"
    unfolding rest by (simp only: env.select_convs)
  from claim have "(fst (analyzeFrame ?e fresh_world) = AnalysisFailed FailedToAnalyze) =
      (run_passes ([Returns [Fin 0.46]] @ [Returns [Fin 0.5]]) [] = [] \<and>
       pass_probability (fallback ?e) = None)"
    by (elim conjE)
  then have "fst (analyzeFrame ?e fresh_world) \<noteq> AnalysisFailed FailedToAnalyze"
    unfolding rest by (simp only: list.distinct simp_thms)
  with collected show ?thesis
    by (rule conjI)
qed

text \<open>
  C10. \<open>updateSafeSearch\<close> records the verdict in \<open>lastMinorState\<close> whatever the sink does.
  So when a cycle issues a sink call that fails, the verdict is recorded while the rules
  stay as they were, and a following completed cycle with the same verdict sends no
  message and leaves the rules untouched: the failed call is not retried.
\<close>

theorem failed_sink_call_not_retried:
  assumes "analyzeFrame e1 w = (Verdict r1, w1)"
    and "analyzeFrame e2 w1 = (Verdict r2, w2)"
    and "isMinor r2 = isMinor r1"
    and "sink_failed (sink e1)"
    and "lastMinorState w \<noteq> Some (isMinor r1)"
  shows "lastMinorState (updateSafeSearch snk minor w0) = Some minor \<and>
         lastMinorState w1 = Some (isMinor r1) \<and>
         sentMessages w1 = sentMessages w @ [isMinor r1] \<and>
         safeSearchRules w1 = safeSearchRules w \<and>
         lastMinorState w2 = Some (isMinor r1) \<and>
         sentMessages w2 = sentMessages w1 \<and>
         safeSearchRules w2 = safeSearchRules w1"
proof -
  note first = analyzeFrame_after_verdict [OF assms(1)]
  note second = analyzeFrame_after_verdict [OF assms(2)]
  have recorded: "lastMinorState w1 = Some (isMinor r2)"
    using first(3) assms(3) by simp
  have "sentMessages w1 = sentMessages w @ [isMinor r1]"
    using first(4) assms(5) by (simp add: updateSafeSearch_sent)
  moreover have "safeSearchRules w1 = safeSearchRules w"
    using first(5) assms(4) by (simp add: updateSafeSearch_failed_rules)
  moreover have "sentMessages w2 = sentMessages w1" "safeSearchRules w2 = safeSearchRules w1"
    using second(4,5) by (simp_all add: updateSafeSearch_same [OF recorded])
  moreover have "lastMinorState w2 = Some (isMinor r1)"
    using second(3) assms(3) by simp
  ultimately show ?thesis
    using first(3) by (simp add: updateSafeSearch_records)
qed

theorem failed_sink_call_not_retried_witness:
  "\<exists>w1 w2.
     analyzeFrame (single_pass [Fin 0.46] (Responds False) 1000 True) fresh_world
       = (Verdict (classify [0.46]), w1) \<and>
     analyzeFrame (single_pass [Fin 0.46] (Responds True) 2000 True) w1
       = (Verdict (classify [0.46]), w2) \<and>
     isMinor (classify [0.46]) \<and>
     lastMinorState w2 = Some True \<and> sentMessages w2 = [True] \<and> safeSearchRules w2 = False"
proof -
  let ?e1 = "single_pass [Fin 0.46] (Responds False) 1000 True"
  let ?e2 = "single_pass [Fin 0.46] (Responds True) 2000 True"
  obtain w1 where run1: "analyzeFrame ?e1 fresh_world = (Verdict (classify [0.46]), w1)"
    using single_pass_cycle [of fresh_world ?e1 "Returns [Fin 0.46]" "0.46"] pass_probability_046
    by (auto simp: fresh_world_fields single_pass_fields)
  have "\<not> isAnalyzing w1" "session w1"
    using analyzeFrame_after_verdict(1,2) [OF run1] by (simp_all add: fresh_world_fields)
  then obtain w2 where run2: "analyzeFrame ?e2 w1 = (Verdict (classify [0.46]), w2)"
    using single_pass_cycle [of w1 ?e2 "Returns [Fin 0.46]" "0.46"] pass_probability_046
    by (auto simp: single_pass_fields)
  have "sink_failed (sink ?e1)"
    by (simp add: single_pass_fields)
  moreover have "lastMinorState fresh_world \<noteq> Some (isMinor (classify [0.46]))"
    unfolding fresh_world_fields by simp
  ultimately have "lastMinorState w2 = Some True \<and> sentMessages w2 = [True] \<and>
      safeSearchRules w2 = False"
    using failed_sink_call_not_retried [OF run1 run2 refl, of "Responds True" True fresh_world]
      classify_046(1)
    by (simp add: fresh_world_fields)
  with run1 run2 classify_046(1) show ?thesis
    by blast
qed

end
